theory Spec2Isabelle
  imports Main "HOL-Library.Word" "HOL-Library.AList" "HOL-Library.Multiset"
begin

section \<open>Gas tracker of patex-chain (core/vm): data model\<close>

text \<open>
  The embedding follows the Go source function by function.
  \<^item> \<open>uint64\<close> is \<open>64 word\<close>: \<open>+\<close> and \<open>-\<close> wrap around as Go's do.
  \<^item> \<open>*big.Int\<close> is \<open>int\<close> (unbounded, signed).
  \<^item> \<open>[]byte\<close> is a list of \<open>8 word\<close>; \<open>common.Hash\<close> (\<open>[32]byte\<close>) is a type of
    its own, the byte lists of length 32; \<open>common.Address\<close> (\<open>[20]byte\<close>) is \<open>160 word\<close>.
  \<^item> A panic is a value: functions that can panic return \<open>panic + 'a\<close>, \<open>Inl\<close> the panic.
  \<^item> A method with a pointer receiver returns the receiver as the call leaves it,
    also when the call panics.
  \<^item> The storage is written in place, so a panic does not undo what was written
    before it: \<open>AllocateDevGas\<close> and its loop return the panic together with the
    storage as the panic leaves it. \<open>updateGasParameters\<close>, \<open>updateGasPredeploy\<close>
    and \<open>setGasMode\<close> panic (in \<open>pack\<close>) before they write, so the storage of a
    panicked call of theirs is the storage it was given; they return the panic alone
    and the caller passes its storage on.
\<close>

type_synonym u64 = "64 word"
type_synonym byte = "8 word"
type_synonym address = "160 word"

typedef hash = "{bs :: byte list. length bs = 32}"
  by (rule exI [of _ "replicate 32 0"]) simp

text \<open>\<open>Hash.Bytes()\<close>: the 32 bytes of a hash.\<close>

definition Bytes :: "hash \<Rightarrow> byte list" where
  "Bytes h = Rep_hash h"

text \<open>
  \<open>common.BytesToHash\<close>: a slice longer than 32 bytes is cropped from the left, a
  shorter one is padded with zero bytes on the left.
\<close>

definition BytesToHash :: "byte list \<Rightarrow> hash" where
  "BytesToHash b =
     Abs_hash (if 32 < length b then drop (length b - 32) b
               else replicate (32 - length b) 0 @ b)"

text \<open>The errors \<open>unpack\<close> returns, and the panics of the package.\<close>

datatype unpack_error = StorageSlotMustContain32Bytes | ConsumeOutOfBounds

datatype panic =
    RefundExceedsGasUsed u64 u64 u64
  | GasAccountingInflation int int
  | BufferTooSmall
  | DivideByZero
  | UnpackFailed unpack_error

record GasParameters =
  mode :: bool
  lastUpdated :: int
  etherBalance :: int
  etherSeconds :: int

text \<open>
  \<open>GasTracker.allocations\<close> is a Go map. It is kept as an association list with
  one entry per key; the order of the list stands for the order in which \<open>range\<close>
  visits the entries, which Go leaves unspecified.
\<close>

record GasTracker =
  allocations :: "(address \<times> u64) list"
  gasUsed :: u64

section \<open>math/big: \<open>SetBytes\<close> and \<open>FillBytes\<close>\<close>

text \<open>\<open>SetBytes\<close> reads a big-endian unsigned integer.\<close>

definition SetBytes :: "byte list \<Rightarrow> int" where
  "SetBytes bs = int (foldl (\<lambda>acc b. acc * 256 + unat b) 0 bs)"

text \<open>The \<open>n\<close> low bytes of \<open>v\<close>, most significant first.\<close>

primrec be_bytes :: "nat \<Rightarrow> nat \<Rightarrow> byte list" where
  "be_bytes 0 v = []"
| "be_bytes (Suc n) v = be_bytes n (v div 256) @ [of_nat (v mod 256)]"

text \<open>
  \<open>x.FillBytes(buf)\<close> with \<open>len(buf) = n\<close>: the absolute value of \<open>x\<close>, zero-extended,
  big-endian; it panics when the absolute value does not fit in \<open>n\<close> bytes.
\<close>

definition FillBytes :: "int \<Rightarrow> nat \<Rightarrow> panic + byte list" where
  "FillBytes x n =
     (if 256 ^ n \<le> \<bar>x\<bar> then Inl BufferTooSmall else Inr (be_bytes n (nat \<bar>x\<bar>)))"

section \<open>The slot codec: \<open>pack\<close> and \<open>unpack\<close>\<close>

text \<open>
  Modelled from the spec: \<open>newSolidityInput\<close> and \<open>consumeBytes\<close> are not among the
  sources. The spec's layout table (offsets 0, 1, 13, 28; lengths 1, 12, 15, 4, laid
  out contiguously) makes \<open>consumeBytes n\<close> return the next \<open>n\<close> bytes of the input
  and advance past them; it is an error to ask for more bytes than remain.
\<close>

type_synonym solidityInput = "byte list \<times> nat"

definition newSolidityInput :: "byte list \<Rightarrow> solidityInput" where
  "newSolidityInput data = (data, 0)"

definition consumeBytes :: "solidityInput \<Rightarrow> nat \<Rightarrow> unpack_error + (byte list \<times> solidityInput)" where
  "consumeBytes inp n =
     (case inp of (data, off) \<Rightarrow>
        if length data < off + n then Inl ConsumeOutOfBounds
        else Inr (take n (drop off data), (data, off + n)))"

definition unpack :: "byte list \<Rightarrow> unpack_error + GasParameters" where
  "unpack params =
     (if length params \<noteq> 32 then Inl StorageSlotMustContain32Bytes
      else
        (case consumeBytes (newSolidityInput params) 1 of
           Inl err \<Rightarrow> Inl err
         | Inr (rawGasMode, in1) \<Rightarrow>
        (let gasMode = (rawGasMode ! 0 \<noteq> 0) in
        (case consumeBytes in1 12 of
           Inl err \<Rightarrow> Inl err
         | Inr (rawEtherBytes, in2) \<Rightarrow>
        (let etherBalance' = SetBytes rawEtherBytes in
        (case consumeBytes in2 15 of
           Inl err \<Rightarrow> Inl err
         | Inr (rawEtherSecondsBytes, in3) \<Rightarrow>
        (let etherSeconds' = SetBytes rawEtherSecondsBytes in
        (case consumeBytes in3 4 of
           Inl err \<Rightarrow> Inl err
         | Inr (rawLastUpdatedBytes, in4) \<Rightarrow>
        (let lastUpdated' = SetBytes rawLastUpdatedBytes in
         Inr \<lparr>mode = gasMode, lastUpdated = lastUpdated',
              etherBalance = etherBalance', etherSeconds = etherSeconds'\<rparr>)))))))))"

text \<open>
  \<open>x.FillBytes(output[lo:hi])\<close>: the slice \<open>lo..hi\<close> of \<open>output\<close> is overwritten, the
  rest is kept.
\<close>

definition fill_slice :: "byte list \<Rightarrow> nat \<Rightarrow> nat \<Rightarrow> int \<Rightarrow> panic + byte list" where
  "fill_slice output lo hi x =
     (case FillBytes x (hi - lo) of
        Inl p \<Rightarrow> Inl p
      | Inr bs \<Rightarrow> Inr (take lo output @ bs @ drop hi output))"

definition pack :: "GasParameters \<Rightarrow> panic + byte list" where
  "pack params =
     (let output = replicate 32 (0 :: byte);
          output = (if mode params then output[0 := 1] else output)
      in (case fill_slice output 1 13 (etherBalance params) of
            Inl p \<Rightarrow> Inl p
          | Inr output \<Rightarrow>
         (case fill_slice output 13 28 (etherSeconds params) of
            Inl p \<Rightarrow> Inl p
          | Inr output \<Rightarrow> fill_slice output 28 32 (lastUpdated params))))"

section \<open>The gas ledger\<close>

definition NewGasTracker :: GasTracker where
  "NewGasTracker = \<lparr>allocations = [], gasUsed = 0\<rparr>"

text \<open>Reading a Go map at a key it does not hold gives the zero value.\<close>

definition GetGasUsedByContract :: "GasTracker \<Rightarrow> address \<Rightarrow> u64" where
  "GetGasUsedByContract gtm a = (case map_of (allocations gtm) a of None \<Rightarrow> 0 | Some v \<Rightarrow> v)"

definition GetGasUsed :: "GasTracker \<Rightarrow> u64" where
  "GetGasUsed gtm = gasUsed gtm"

text \<open>
  \<open>m[k] += v\<close> and \<open>m[k] -= v\<close> store at \<open>k\<close>, creating the entry when the map
  does not hold the key.
\<close>

definition UseGas :: "GasTracker \<Rightarrow> address \<Rightarrow> u64 \<Rightarrow> GasTracker" where
  "UseGas gtm a amount =
     (let gtm = gtm\<lparr>gasUsed := gasUsed gtm + amount\<rparr>
      in gtm\<lparr>allocations :=
               AList.update a (GetGasUsedByContract gtm a + amount) (allocations gtm)\<rparr>)"

definition RefundGas :: "GasTracker \<Rightarrow> address \<Rightarrow> u64 \<Rightarrow> GasTracker \<times> (panic + unit)" where
  "RefundGas gtm a amount =
     (if gasUsed gtm < amount \<or> GetGasUsedByContract gtm a < amount
      then (gtm, Inl (RefundExceedsGasUsed (gasUsed gtm) (GetGasUsedByContract gtm a) amount))
      else
        let gtm = gtm\<lparr>gasUsed := gasUsed gtm - amount\<rparr>;
            gtm = gtm\<lparr>allocations :=
                        AList.update a (GetGasUsedByContract gtm a - amount) (allocations gtm)\<rparr>
        in (gtm, Inr ()))"

text \<open>A sequence of calls on one ledger; it stops at the first panic.\<close>

datatype call = Use address u64 | Refund address u64

fun call_address :: "call \<Rightarrow> address" where
  "call_address (Use a n) = a"
| "call_address (Refund a n) = a"

fun run_calls :: "GasTracker \<Rightarrow> call list \<Rightarrow> GasTracker \<times> (panic + unit)" where
  "run_calls gtm [] = (gtm, Inr ())"
| "run_calls gtm (Use a n # cs) = run_calls (UseGas gtm a n) cs"
| "run_calls gtm (Refund a n # cs) =
     (case RefundGas gtm a n of
        (gtm', Inl p) \<Rightarrow> (gtm', Inl p)
      | (gtm', Inr u) \<Rightarrow> run_calls gtm' cs)"

text \<open>
  The exact (unbounded) sum of the allocations, the total of the amounts passed to
  \<open>UseGas\<close>, and the two readings of "\<open>gasUsed\<close> is the sum of the allocations":
  exactly, and up to the wrap-around of \<open>uint64\<close>.
\<close>

definition allocations_sum :: "GasTracker \<Rightarrow> nat" where
  "allocations_sum gtm = sum_list (map (\<lambda>(a, v). unat v) (allocations gtm))"

fun used_total :: "call list \<Rightarrow> nat" where
  "used_total [] = 0"
| "used_total (Use a n # cs) = unat n + used_total cs"
| "used_total (Refund a n # cs) = used_total cs"

definition conserved :: "GasTracker \<Rightarrow> bool" where
  "conserved gtm \<longleftrightarrow> allocations_sum gtm = unat (gasUsed gtm)"

definition conserved_mod :: "GasTracker \<Rightarrow> bool" where
  "conserved_mod gtm \<longleftrightarrow> unat (gasUsed gtm) = allocations_sum gtm mod 2 ^ 64"

section \<open>The storage capability and the accrual record store\<close>

text \<open>
  Modelled from the spec: the \<open>StateDB\<close> interface and its implementation are not
  among the sources. Spec section 6: \<open>getCell(systemAddress, slotKey) -> 32 bytes\<close>,
  \<open>setCell\<close>, \<open>addBalance(account, amount)\<close>, \<open>getBalance(account)\<close>.
\<close>

record StateDB =
  cells :: "address \<Rightarrow> hash \<Rightarrow> hash"
  balances :: "address \<Rightarrow> int"

definition GetState :: "StateDB \<Rightarrow> address \<Rightarrow> hash \<Rightarrow> hash" where
  "GetState st a k = cells st a k"

definition SetState :: "StateDB \<Rightarrow> address \<Rightarrow> hash \<Rightarrow> hash \<Rightarrow> StateDB" where
  "SetState st a k v = st\<lparr>cells := (cells st)(a := (cells st a)(k := v))\<rparr>"


definition AddBalance :: "StateDB \<Rightarrow> address \<Rightarrow> int \<Rightarrow> StateDB" where
  "AddBalance st a amount = st\<lparr>balances := (balances st)(a := balances st a + amount)\<rparr>"

text \<open>A fresh storage: every cell is 32 zero bytes, every balance is 0.\<close>

definition emptyStateDB :: StateDB where
  "emptyStateDB = \<lparr>cells = (\<lambda>a k. BytesToHash []), balances = (\<lambda>a. 0)\<rparr>"

text \<open>
  What the package takes from outside the sources: the hash function
  \<open>crypto.Keccak256Hash\<close> and the two addresses of package \<open>params\<close>. They are
  parameters of the model; every theorem holds for every choice of them.
\<close>

record externals =
  Keccak256Hash :: "byte list \<Rightarrow> hash"
  PatexGasAddress :: address
  PatexBaseFeeRecipient :: address

text \<open>\<open>Address.Bytes()\<close>: the 20 bytes of an address, most significant first.\<close>

definition address_Bytes :: "address \<Rightarrow> byte list" where
  "address_Bytes a = map (\<lambda>i. ucast (drop_bit (8 * i) a)) (rev [0..<20])"

definition getHash :: "externals \<Rightarrow> address \<Rightarrow> string \<Rightarrow> hash" where
  "getHash ext addr app =
     (let strBytes = map (\<lambda>c. of_nat (of_char c)) app;
          output = address_Bytes addr @ strBytes
      in Keccak256Hash ext output)"

definition getContractStorageSlot :: "externals \<Rightarrow> address \<Rightarrow> hash" where
  "getContractStorageSlot ext contractAddress = getHash ext contractAddress ''parameters''"

definition readGasParameters :: "externals \<Rightarrow> StateDB \<Rightarrow> address \<Rightarrow> panic + GasParameters" where
  "readGasParameters ext st contractAddress =
     (let slot = getContractStorageSlot ext contractAddress;
          gasStorageSlotBytes = Bytes (GetState st (PatexGasAddress ext) slot)
      in case unpack gasStorageSlotBytes of
           Inl err \<Rightarrow> Inl (UnpackFailed err)
         | Inr gasParameters \<Rightarrow> Inr gasParameters)"

definition updateGasParameters ::
  "externals \<Rightarrow> StateDB \<Rightarrow> address \<Rightarrow> GasParameters \<Rightarrow> panic + StateDB" where
  "updateGasParameters ext st contractAddress gasParameters =
     (let slot = getContractStorageSlot ext contractAddress
      in case pack gasParameters of
           Inl p \<Rightarrow> Inl p
         | Inr byteArray \<Rightarrow> Inr (SetState st (PatexGasAddress ext) slot (BytesToHash byteArray)))"

definition updateGasPredeploy ::
  "externals \<Rightarrow> StateDB \<Rightarrow> address \<Rightarrow> int \<Rightarrow> int \<Rightarrow> GasParameters \<Rightarrow> panic + StateDB" where
  "updateGasPredeploy ext st contractAddress fee timestamp gasParameters =
     (let unprocessedEtherSeconds =
            etherBalance gasParameters * (timestamp - lastUpdated gasParameters);
          gasParameters = gasParameters\<lparr>etherSeconds :=
            etherSeconds gasParameters + unprocessedEtherSeconds\<rparr>;
          gasParameters = gasParameters\<lparr>etherBalance := etherBalance gasParameters + fee\<rparr>;
          gasParameters = gasParameters\<lparr>lastUpdated := timestamp\<rparr>
      in updateGasParameters ext st contractAddress gasParameters)"

text \<open>\<open>setGasMode\<close> of the package's tests: how a contract opts in.\<close>

definition setGasMode :: "externals \<Rightarrow> StateDB \<Rightarrow> address \<Rightarrow> int \<Rightarrow> panic + StateDB" where
  "setGasMode ext st contractAddress m =
     (case readGasParameters ext st contractAddress of
        Inl p \<Rightarrow> Inl p
      | Inr gasParameters \<Rightarrow>
          updateGasParameters ext st contractAddress (gasParameters\<lparr>mode := (0 < m)\<rparr>))"

section \<open>The distribution: \<open>AllocateDevGas\<close>\<close>

text \<open>
  \<open>big.Int.Div\<close> is Euclidean division (the remainder is never negative) and panics
  on a zero divisor.
\<close>

datatype div_result = DivisionByZero | Quotient int

definition big_Div :: "int \<Rightarrow> int \<Rightarrow> div_result" where
  "big_Div x y =
     (if y = 0 then DivisionByZero
      else if 0 < y then Quotient (x div y) else Quotient (- (x div (- y))))"

text \<open>
  The body of the \<open>range\<close> loop, entry by entry in the order of the list.
  \<open>totalGasAccount\<close>, \<open>accumulatedGas\<close> and the storage are the loop's state.
\<close>

fun allocate_loop ::
  "externals \<Rightarrow> int \<Rightarrow> int \<Rightarrow> int \<Rightarrow> int \<Rightarrow> (address \<times> u64) list \<Rightarrow>
   int \<Rightarrow> int \<Rightarrow> StateDB \<Rightarrow> (panic \<times> StateDB) + (int \<times> int \<times> StateDB)" where
  "allocate_loop ext gasPrice remainingGas netGas blockTimestamp []
     totalGasAccount accumulatedGas st = Inr (totalGasAccount, accumulatedGas, st)"
| "allocate_loop ext gasPrice remainingGas netGas blockTimestamp ((addr, rawAmount) # rest)
     totalGasAccount accumulatedGas st =
     (let parsedRawAmount = uint rawAmount
      in (case big_Div (remainingGas * parsedRawAmount) netGas of
            DivisionByZero \<Rightarrow> Inl (DivideByZero, st)
          | Quotient scaledGasUnits \<Rightarrow>
         (let totalGasAccount = totalGasAccount + scaledGasUnits
          in (case readGasParameters ext st addr of
                Inl p \<Rightarrow> Inl (p, st)
              | Inr gasParameters \<Rightarrow>
             (if \<not> mode gasParameters
              then allocate_loop ext gasPrice remainingGas netGas blockTimestamp rest
                     totalGasAccount accumulatedGas st
              else
                (let accumulatedGas = accumulatedGas + scaledGasUnits;
                     fee = scaledGasUnits * gasPrice
                 in if 0 < fee
                    then (case updateGasPredeploy ext st addr fee blockTimestamp gasParameters of
                            Inl p \<Rightarrow> Inl (p, st)
                          | Inr st' \<Rightarrow>
                              allocate_loop ext gasPrice remainingGas netGas blockTimestamp rest
                                totalGasAccount accumulatedGas st')
                    else allocate_loop ext gasPrice remainingGas netGas blockTimestamp rest
                           totalGasAccount accumulatedGas st))))))"

text \<open>
  On a panic the result holds the storage as the panic leaves it: the cells the loop
  wrote for the entries before the panicking one stay written; the two balances are
  credited only after the loop and the check.
\<close>

definition AllocateDevGas ::
  "externals \<Rightarrow> GasTracker \<Rightarrow> int \<Rightarrow> u64 \<Rightarrow> StateDB \<Rightarrow> u64 \<Rightarrow>
   GasTracker \<times> ((panic \<times> StateDB) + StateDB)" where
  "AllocateDevGas ext gtm gasPrice refund st timestamp =
     (if gasUsed gtm = 0 \<or> gasUsed gtm \<le> refund then (gtm, Inr st)
      else
        let remainingGas = uint (gasUsed gtm - refund);
            netGas = uint (gasUsed gtm);
            blockTimestamp = uint timestamp
        in case allocate_loop ext gasPrice remainingGas netGas blockTimestamp
                  (allocations gtm) 0 0 st of
             Inl (p, st) \<Rightarrow> (gtm, Inl (p, st))
           | Inr (totalGasAccount, accumulatedGas, st) \<Rightarrow>
               if remainingGas < totalGasAccount
               then (gtm, Inl (GasAccountingInflation totalGasAccount remainingGas, st))
               else
                 let patexGasUnits = remainingGas - accumulatedGas;
                     patexGas = patexGasUnits * gasPrice;
                     st = AddBalance st (PatexBaseFeeRecipient ext) patexGas;
                     claimableGasToAdd = accumulatedGas * gasPrice;
                     st = AddBalance st (PatexGasAddress ext) claimableGasToAdd
                 in (gtm, Inr st))"

text \<open>The share of one entry: \<open>floor(remaining * amount / totalUsed)\<close>.\<close>

definition scaled_share :: "u64 \<Rightarrow> u64 \<Rightarrow> u64 \<Rightarrow> int" where
  "scaled_share used refund rawAmount = (uint (used - refund) * uint rawAmount) div uint used"


section \<open>Auxiliary definitions: the loop as a fold\<close>







section \<open>Example inputs\<close>






section \<open>Lemmas: big-endian bytes\<close>

lemma length_be_bytes: "length (be_bytes n v) = n"
  by (induction n arbitrary: v) simp_all

lemma unat_byte_of_nat_mod: "unat (of_nat (v mod 256) :: byte) = v mod 256"
  by (simp add: unat_of_nat)

lemma foldl_be_bytes:
  "v < 256 ^ n \<Longrightarrow> foldl (\<lambda>acc b. acc * 256 + unat (b :: byte)) 0 (be_bytes n v) = v"
proof (induction n arbitrary: v)
  case 0
  then show ?case by simp
next
  case (Suc n)
  from Suc.prems have "v div 256 < 256 ^ n"
    by (simp add: less_mult_imp_div_less mult.commute)
  then have "foldl (\<lambda>acc b. acc * 256 + unat (b :: byte)) 0 (be_bytes n (v div 256)) = v div 256"
    by (rule Suc.IH)
  then show ?case
    by (simp add: unat_byte_of_nat_mod)
qed

lemma SetBytes_be_bytes: "v < 256 ^ n \<Longrightarrow> SetBytes (be_bytes n v) = int v"
  by (simp add: SetBytes_def foldl_be_bytes)

lemma SetBytes_nonneg: "0 \<le> SetBytes bs"
  by (simp add: SetBytes_def)

lemma foldl_bytes_bound:
  "a < 256 ^ k \<Longrightarrow> foldl (\<lambda>acc b. acc * 256 + unat (b :: byte)) a bs < 256 ^ (k + length bs)"
proof (induction bs arbitrary: a k)
  case Nil
  then show ?case by simp
next
  case (Cons b bs)
  have "unat b < 256"
    using unsigned_less [of b, where ?'a = nat] by simp
  with Cons.prems have "a * 256 + unat b < 256 ^ Suc k"
    by simp
  from Cons.IH [OF this] show ?case by simp
qed

lemma SetBytes_bound: "SetBytes bs < 256 ^ length bs"
proof -
  have "foldl (\<lambda>acc b. acc * 256 + unat (b :: byte)) 0 bs < 256 ^ (0 + length bs)"
    by (rule foldl_bytes_bound) simp
  then have "int (foldl (\<lambda>acc b. acc * 256 + unat (b :: byte)) 0 bs) < int (256 ^ length bs)"
    by (simp only: of_nat_less_iff add_0)
  then show ?thesis by (simp add: SetBytes_def)
qed

section \<open>Lemmas: the codec\<close>

lemma output_mode_byte:
  "(replicate 32 (0 :: byte))[0 := 1] = 1 # replicate 31 0"
  "replicate 32 (0 :: byte) = 0 # replicate 31 0"
proof -
  have "(32::nat) = Suc 31" by simp
  then show "(replicate 32 (0 :: byte))[0 := 1] = 1 # replicate 31 0"
    and "replicate 32 (0 :: byte) = 0 # replicate 31 0"
    by (simp_all only: replicate_Suc list_update_code)
qed

lemma pack_eq:
  "pack p =
     (if 2 ^ 96 \<le> \<bar>etherBalance p\<bar> \<or> 2 ^ 120 \<le> \<bar>etherSeconds p\<bar> \<or> 2 ^ 32 \<le> \<bar>lastUpdated p\<bar>
      then Inl BufferTooSmall
      else Inr ((if mode p then 1 else 0) # be_bytes 12 (nat \<bar>etherBalance p\<bar>)
                @ be_bytes 15 (nat \<bar>etherSeconds p\<bar>) @ be_bytes 4 (nat \<bar>lastUpdated p\<bar>)))"
  by (simp add: pack_def fill_slice_def FillBytes_def Let_def length_be_bytes output_mode_byte)

lemma unpack_layout:
  assumes "length A = 12" "length B = 15" "length C = 4"
  shows "unpack (m # A @ B @ C) =
    Inr \<lparr>mode = (m \<noteq> 0), lastUpdated = SetBytes C, etherBalance = SetBytes A, etherSeconds = SetBytes B\<rparr>"
  using assms by (simp add: unpack_def consumeBytes_def newSolidityInput_def)

lemma unpack_total:
  "length bs = 32 \<Longrightarrow> unpack bs =
    Inr \<lparr>mode = (bs ! 0 \<noteq> 0), lastUpdated = SetBytes (take 4 (drop 28 bs)),
         etherBalance = SetBytes (take 12 (drop 1 bs)), etherSeconds = SetBytes (take 15 (drop 13 bs))\<rparr>"
  by (simp add: unpack_def consumeBytes_def newSolidityInput_def)

lemma unpack_pack_abs:
  assumes "pack x = Inr bs"
  shows "unpack bs = Inr \<lparr>mode = mode x, lastUpdated = \<bar>lastUpdated x\<bar>,
                          etherBalance = \<bar>etherBalance x\<bar>, etherSeconds = \<bar>etherSeconds x\<bar>\<rparr>"
proof -
  let ?A = "be_bytes 12 (nat \<bar>etherBalance x\<bar>)"
  let ?B = "be_bytes 15 (nat \<bar>etherSeconds x\<bar>)"
  let ?C = "be_bytes 4 (nat \<bar>lastUpdated x\<bar>)"
  let ?m = "if mode x then 1 else 0 :: byte"
  from assms have fits: "\<bar>etherBalance x\<bar> < 2 ^ 96" "\<bar>etherSeconds x\<bar> < 2 ^ 120" "\<bar>lastUpdated x\<bar> < 2 ^ 32"
    by (simp_all add: pack_eq split: if_splits)
  with assms have bs: "bs = ?m # ?A @ ?B @ ?C"
    by (simp add: pack_eq)
  have a: "SetBytes ?A = \<bar>etherBalance x\<bar>"
    using fits(1) by (subst SetBytes_be_bytes) (simp_all add: nat_less_iff)
  have b: "SetBytes ?B = \<bar>etherSeconds x\<bar>"
    using fits(2) by (subst SetBytes_be_bytes) (simp_all add: nat_less_iff)
  have c: "SetBytes ?C = \<bar>lastUpdated x\<bar>"
    using fits(3) by (subst SetBytes_be_bytes) (simp_all add: nat_less_iff)
  show ?thesis
    unfolding bs by (simp only: unpack_layout length_be_bytes a b c) simp
qed

section \<open>The codec: round trip and overflow\<close>

text \<open>
  Claim C2. For every accrual record whose fields are within bounds (any flag,
  \<open>0 \<le> balance < 2^96\<close>, \<open>0 \<le> valueSeconds < 2^120\<close>, \<open>0 \<le> lastUpdated < 2^32\<close>),
  \<open>pack\<close> returns 32 bytes that \<open>unpack\<close> decodes to the same record.
\<close>

theorem unpack_pack_roundtrip:
  assumes "0 \<le> etherBalance x" "etherBalance x < 2 ^ 96"
    and "0 \<le> etherSeconds x" "etherSeconds x < 2 ^ 120"
    and "0 \<le> lastUpdated x" "lastUpdated x < 2 ^ 32"
  shows "\<exists>bs. pack x = Inr bs \<and> length bs = 32 \<and> unpack bs = Inr (x :: GasParameters)"
proof -
  from assms obtain bs where p: "pack x = Inr bs" and l: "length bs = 32"
    by (simp add: pack_eq length_be_bytes)
  from unpack_pack_abs [OF p] assms(1,3,5) have "unpack bs = Inr x"
    by simp
  with p l show ?thesis by blast
qed

theorem unpack_pack_roundtrip_witness:
  "\<exists>bs. pack \<lparr>mode = True, lastUpdated = 300, etherBalance = 100, etherSeconds = 200\<rparr> = Inr bs \<and>
      length bs = 32 \<and>
      unpack bs = Inr \<lparr>mode = True, lastUpdated = 300, etherBalance = 100, etherSeconds = 200\<rparr>"
  using unpack_pack_roundtrip [of "\<lparr>mode = True, lastUpdated = 300, etherBalance = 100, etherSeconds = 200\<rparr>"]
  by simp

text \<open>
  Claim C3. For an accrual record (fields non-negative), \<open>pack\<close> panics exactly when
  \<open>balance \<ge> 2^96\<close>, \<open>valueSeconds \<ge> 2^120\<close> or \<open>lastUpdated \<ge> 2^32\<close>; the panic is
  the one of \<open>FillBytes\<close>; and \<open>pack\<close> returns 32 bytes exactly when every field is at
  or below its boundary value \<open>2^96 - 1\<close>, \<open>2^120 - 1\<close>, \<open>2^32 - 1\<close>.
\<close>

theorem pack_fails_iff_overflow:
  assumes "0 \<le> etherBalance p" "0 \<le> etherSeconds p" "0 \<le> lastUpdated p"
  shows "(isl (pack p) \<longleftrightarrow>
            2 ^ 96 \<le> etherBalance p \<or> 2 ^ 120 \<le> etherSeconds p \<or> 2 ^ 32 \<le> lastUpdated p) \<and>
         (pack p = Inl BufferTooSmall \<longleftrightarrow>
            2 ^ 96 \<le> etherBalance p \<or> 2 ^ 120 \<le> etherSeconds p \<or> 2 ^ 32 \<le> lastUpdated p) \<and>
         ((\<exists>output. pack p = Inr output \<and> length output = 32) \<longleftrightarrow>
            etherBalance p \<le> 2 ^ 96 - 1 \<and> etherSeconds p \<le> 2 ^ 120 - 1 \<and> lastUpdated p \<le> 2 ^ 32 - 1)"
  using assms by (auto simp add: pack_eq length_be_bytes)

theorem pack_fails_iff_overflow_witness:
  "(\<exists>output. pack \<lparr>mode = True, lastUpdated = 2 ^ 32 - 1, etherBalance = 2 ^ 96 - 1,
                    etherSeconds = 2 ^ 120 - 1\<rparr> = Inr output \<and> length output = 32) \<and>
   pack \<lparr>mode = True, lastUpdated = 0, etherBalance = 2 ^ 96, etherSeconds = 0\<rparr> = Inl BufferTooSmall"
  using pack_fails_iff_overflow [of "\<lparr>mode = True, lastUpdated = 2 ^ 32 - 1, etherBalance = 2 ^ 96 - 1, etherSeconds = 2 ^ 120 - 1\<rparr>"]
        pack_fails_iff_overflow [of "\<lparr>mode = True, lastUpdated = 0, etherBalance = 2 ^ 96, etherSeconds = 0\<rparr>"]
  by simp

section \<open>Lemmas: the gas ledger\<close>

lemma UseGas_fields:
  "UseGas gtm a n =
     \<lparr>allocations = AList.update a (GetGasUsedByContract gtm a + n) (allocations gtm),
      gasUsed = gasUsed gtm + n\<rparr>"
  by (simp add: UseGas_def Let_def GetGasUsedByContract_def)

lemma GetGasUsedByContract_UseGas:
  "GetGasUsedByContract (UseGas gtm a n) b =
     (if b = a then GetGasUsedByContract gtm a + n else GetGasUsedByContract gtm b)"
  by (simp add: UseGas_fields GetGasUsedByContract_def update_conv')

lemma RefundGas_cases:
  "RefundGas gtm a n =
     (if gasUsed gtm < n \<or> GetGasUsedByContract gtm a < n
      then (gtm, Inl (RefundExceedsGasUsed (gasUsed gtm) (GetGasUsedByContract gtm a) n))
      else (\<lparr>allocations = AList.update a (GetGasUsedByContract gtm a - n) (allocations gtm),
             gasUsed = gasUsed gtm - n\<rparr>, Inr ()))"
  by (simp add: RefundGas_def Let_def GetGasUsedByContract_def)

lemma run_calls_untouched:
  "a \<notin> call_address ` set cs \<Longrightarrow>
   GetGasUsedByContract (fst (run_calls gtm cs)) a = GetGasUsedByContract gtm a"
proof (induction gtm cs rule: run_calls.induct)
  case (1 gtm)
  then show ?case by simp
next
  case (2 gtm b n cs)
  then show ?case by (simp add: GetGasUsedByContract_UseGas)
next
  case (3 gtm b n cs)
  show ?case
  proof (cases "gasUsed gtm < n \<or> GetGasUsedByContract gtm b < n")
    case True
    then show ?thesis by (simp add: RefundGas_cases)
  next
    case False
    let ?g = "\<lparr>allocations = AList.update b (GetGasUsedByContract gtm b - n) (allocations gtm),
             gasUsed = gasUsed gtm - n\<rparr>"
    from False have r: "RefundGas gtm b n = (?g, Inr ())"
      by (simp add: RefundGas_cases)
    from 3 have "a \<noteq> b" and "a \<notin> call_address ` set cs" by auto
    with 3(1) [OF r [symmetric] refl] r show ?thesis
      by (simp add: GetGasUsedByContract_def update_conv')
  qed
qed

lemma sum_unat_update:
  "sum_list (map (\<lambda>(a, v). unat v) (AList.update k w al)) + unat (case map_of al k of None \<Rightarrow> 0 | Some v \<Rightarrow> v)
     = sum_list (map (\<lambda>(a, v). unat v) al) + unat (w :: u64)"
  by (induction al) auto

lemma sum_word_update:
  "sum_list (map snd (AList.update k w al)) + (case map_of al k of None \<Rightarrow> 0 | Some v \<Rightarrow> v)
     = sum_list (map snd al) + (w :: u64)"
  by (induction al) auto

lemma allocations_sum_UseGas:
  "allocations_sum (UseGas gtm a n) + unat (GetGasUsedByContract gtm a)
     = allocations_sum gtm + unat (GetGasUsedByContract gtm a + n)"
  using sum_unat_update [of a "GetGasUsedByContract gtm a + n" "allocations gtm"]
  by (simp add: allocations_sum_def UseGas_fields) (simp add: GetGasUsedByContract_def)

lemma lookup_le_sum:
  "unat (GetGasUsedByContract gtm a) \<le> allocations_sum gtm"
proof -
  have "unat (case map_of al a of None \<Rightarrow> 0 | Some v \<Rightarrow> v) \<le> sum_list (map (\<lambda>(a, v). unat v) al)"
    for al :: "(address \<times> u64) list"
    by (induction al) auto
  then show ?thesis
    by (simp add: allocations_sum_def GetGasUsedByContract_def)
qed

lemma conserved_UseGas:
  assumes "conserved gtm" "unat (gasUsed gtm) + unat n < 2 ^ 64"
  shows "conserved (UseGas gtm a n)"
proof -
  have le: "unat (GetGasUsedByContract gtm a) \<le> unat (gasUsed gtm)"
    using lookup_le_sum [of gtm a] assms(1) by (simp add: conserved_def)
  have 1: "unat (GetGasUsedByContract gtm a + n) = unat (GetGasUsedByContract gtm a) + unat n"
    using le assms(2) by (simp add: unat_add_lem [THEN iffD1])
  have 2: "unat (gasUsed gtm + n) = unat (gasUsed gtm) + unat n"
    using assms(2) by (simp add: unat_add_lem [THEN iffD1])
  have "gasUsed (UseGas gtm a n) = gasUsed gtm + n"
    by (simp add: UseGas_fields)
  with allocations_sum_UseGas [of gtm a n] 1 2 assms(1) show ?thesis
    by (simp add: conserved_def)
qed

lemma conserved_RefundGas:
  assumes "conserved gtm"
  shows "conserved (fst (RefundGas gtm a n))"
proof (cases "gasUsed gtm < n \<or> GetGasUsedByContract gtm a < n")
  case True
  with assms show ?thesis by (simp add: RefundGas_cases)
next
  case False
  then have n1: "unat n \<le> unat (gasUsed gtm)" and n2: "unat n \<le> unat (GetGasUsedByContract gtm a)"
    by (simp_all add: not_less word_le_nat_alt)
  let ?g = "\<lparr>allocations = AList.update a (GetGasUsedByContract gtm a - n) (allocations gtm),
             gasUsed = gasUsed gtm - n\<rparr>"
  have "allocations_sum ?g + unat (GetGasUsedByContract gtm a) =
        allocations_sum gtm + unat (GetGasUsedByContract gtm a - n)"
    using sum_unat_update [of a "GetGasUsedByContract gtm a - n" "allocations gtm"]
    by (simp add: allocations_sum_def) (simp add: GetGasUsedByContract_def)
  moreover have "unat (GetGasUsedByContract gtm a - n) = unat (GetGasUsedByContract gtm a) - unat n"
    using False by (simp add: unat_sub not_less)
  moreover have "unat (gasUsed gtm - n) = unat (gasUsed gtm) - unat n"
    using False by (simp add: unat_sub not_less)
  ultimately have "conserved ?g"
    using assms n1 n2 by (simp add: conserved_def)
  with False show ?thesis by (simp add: RefundGas_cases)
qed

lemma of_nat_allocations_sum:
  "(of_nat (allocations_sum gtm) :: u64) = sum_list (map snd (allocations gtm))"
proof -
  have "(of_nat (sum_list (map (\<lambda>(a, v). unat v) al)) :: u64) = sum_list (map snd al)"
    for al :: "(address \<times> u64) list"
    by (induction al) auto
  then show ?thesis by (simp add: allocations_sum_def)
qed

lemma conserved_mod_iff:
  "conserved_mod gtm \<longleftrightarrow> gasUsed gtm = sum_list (map snd (allocations gtm))"
proof -
  have "unat (of_nat (allocations_sum gtm) :: u64) = allocations_sum gtm mod 2 ^ 64"
    by (simp add: unat_of_nat)
  then show ?thesis
    unfolding conserved_mod_def of_nat_allocations_sum [symmetric]
    by (simp add: word_unat_eq_iff)
qed

lemma conserved_mod_UseGas:
  "conserved_mod gtm \<Longrightarrow> conserved_mod (UseGas gtm a n)"
  using sum_word_update [of a "GetGasUsedByContract gtm a + n" "allocations gtm"]
  by (simp add: conserved_mod_iff UseGas_fields) (simp add: GetGasUsedByContract_def algebra_simps)

lemma conserved_mod_RefundGas:
  "conserved_mod gtm \<Longrightarrow> conserved_mod (fst (RefundGas gtm a n))"
  using sum_word_update [of a "GetGasUsedByContract gtm a - n" "allocations gtm"]
  by (simp add: conserved_mod_iff RefundGas_cases) (simp add: GetGasUsedByContract_def algebra_simps)

lemma run_calls_conserved_mod:
  "conserved_mod gtm \<Longrightarrow> conserved_mod (fst (run_calls gtm cs))"
proof (induction gtm cs rule: run_calls.induct)
  case (1 gtm)
  then show ?case by simp
next
  case (2 gtm a n cs)
  then show ?case by (simp add: conserved_mod_UseGas)
next
  case (3 gtm a n cs)
  have c: "conserved_mod (fst (RefundGas gtm a n))"
    using 3(2) by (rule conserved_mod_RefundGas)
  show ?case
  proof (cases "RefundGas gtm a n")
    case (Pair g' r)
    show ?thesis
    proof (cases r)
      case (Inl p)
      with Pair c show ?thesis by simp
    next
      case (Inr u)
      with Pair c 3(1) [OF Pair [symmetric] Inr] show ?thesis by simp
    qed
  qed
qed

lemma RefundGas_gasUsed_le:
  "unat (gasUsed (fst (RefundGas gtm a n))) \<le> unat (gasUsed gtm)"
  by (simp add: RefundGas_cases unat_sub not_less)

lemma run_calls_conserved:
  "conserved gtm \<Longrightarrow> unat (gasUsed gtm) + used_total cs < 2 ^ 64 \<Longrightarrow>
   conserved (fst (run_calls gtm cs))"
proof (induction gtm cs rule: run_calls.induct)
  case (1 gtm)
  then show ?case by simp
next
  case (2 gtm a n cs)
  from 2(2,3) have c: "conserved (UseGas gtm a n)"
    by (intro conserved_UseGas) simp_all
  from 2(3) have "unat (gasUsed gtm + n) = unat (gasUsed gtm) + unat n"
    by (simp add: unat_add_lem [THEN iffD1])
  with 2(3) have "unat (gasUsed (UseGas gtm a n)) + used_total cs < 2 ^ 64"
    by (simp add: UseGas_fields)
  with 2(1) c show ?case by simp
next
  case (3 gtm a n cs)
  have c: "conserved (fst (RefundGas gtm a n))"
    using 3(2) by (rule conserved_RefundGas)
  have b: "unat (gasUsed (fst (RefundGas gtm a n))) + used_total cs < 2 ^ 64"
    using RefundGas_gasUsed_le [of gtm a n] 3(3) by simp
  show ?case
  proof (cases "RefundGas gtm a n")
    case (Pair g' r)
    show ?thesis
    proof (cases r)
      case (Inl p)
      with Pair c show ?thesis by simp
    next
      case (Inr u)
      with Pair c b 3(1) [OF Pair [symmetric] Inr] show ?thesis by simp
    qed
  qed
qed

lemma used_total_take: "used_total (take k cs) \<le> used_total cs"
proof (induction cs arbitrary: k rule: used_total.induct)
  case 1
  then show ?case by simp
next
  case (2 a n cs)
  then show ?case by (cases k) (simp_all add: le_SucI)
next
  case (3 a n cs)
  then show ?case by (cases k) simp_all
qed

section \<open>The gas ledger: refund, conservation, accessors\<close>

text \<open>
  Claim C4. \<open>RefundGas gtm a n\<close> panics exactly when \<open>n > gasUsed\<close> or
  \<open>n > allocations[a]\<close>. When it panics the ledger is left as it was. When it does
  not, \<open>gasUsed\<close> and \<open>allocations[a]\<close> are both lowered by \<open>n\<close> (without wrap-around:
  \<open>n\<close> is at most either), and every other entry of the map is as before.
\<close>

theorem RefundGas_aborts_iff:
  "(isl (snd (RefundGas gtm a n)) \<longleftrightarrow> gasUsed gtm < n \<or> GetGasUsedByContract gtm a < n) \<and>
   (isl (snd (RefundGas gtm a n)) \<longrightarrow> fst (RefundGas gtm a n) = gtm) \<and>
   (\<not> isl (snd (RefundGas gtm a n)) \<longrightarrow>
      unat n \<le> unat (gasUsed gtm) \<and>
      unat (gasUsed (fst (RefundGas gtm a n))) = unat (gasUsed gtm) - unat n \<and>
      unat n \<le> unat (GetGasUsedByContract gtm a) \<and>
      unat (GetGasUsedByContract (fst (RefundGas gtm a n)) a) =
        unat (GetGasUsedByContract gtm a) - unat n \<and>
      map_of (allocations (fst (RefundGas gtm a n))) a = Some (GetGasUsedByContract gtm a - n) \<and>
      (\<forall>b. b \<noteq> a \<longrightarrow>
         map_of (allocations (fst (RefundGas gtm a n))) b = map_of (allocations gtm) b))"
  by (auto simp add: RefundGas_cases GetGasUsedByContract_def update_conv' unat_sub
      word_le_nat_alt word_less_nat_alt not_less split: option.splits)

theorem RefundGas_aborts_iff_witness:
  "RefundGas \<lparr>allocations = [(1, 5), (2, 5)], gasUsed = 10\<rparr> 1 3
     = (\<lparr>allocations = [(1, 2), (2, 5)], gasUsed = 7\<rparr>, Inr ()) \<and>
   isl (snd (RefundGas \<lparr>allocations = [(1, 5), (2, 5)], gasUsed = 10\<rparr> 1 6)) \<and>
   fst (RefundGas \<lparr>allocations = [(1, 5), (2, 5)], gasUsed = 10\<rparr> 1 6)
     = \<lparr>allocations = [(1, 5), (2, 5)], gasUsed = 10\<rparr>"
  using RefundGas_aborts_iff [of "\<lparr>allocations = [(1, 5), (2, 5)], gasUsed = 10\<rparr>" 1 3]
    RefundGas_aborts_iff [of "\<lparr>allocations = [(1, 5), (2, 5)], gasUsed = 10\<rparr>" 1 6]
  by (simp add: RefundGas_cases GetGasUsedByContract_def)

text \<open>
  Claim C5, as the code has it. After every call of a sequence of \<open>UseGas\<close> and
  \<open>RefundGas\<close> calls on a fresh ledger (every prefix \<open>take k cs\<close> of the sequence;
  a panicking refund leaves the ledger as it was), \<open>gasUsed\<close> is the sum of the
  allocations modulo \<open>2^64\<close>, since both are \<open>uint64\<close> counters that wrap around. The
  sum is exact whenever the amounts passed to \<open>UseGas\<close> total less than \<open>2^64\<close>.
\<close>

theorem ledger_conservation:
  "conserved_mod (fst (run_calls NewGasTracker (take k cs))) \<and>
   (used_total cs < 2 ^ 64 \<longrightarrow> conserved (fst (run_calls NewGasTracker (take k cs))))"
proof
  have "conserved_mod NewGasTracker"
    by (simp add: conserved_mod_def allocations_sum_def NewGasTracker_def)
  then show "conserved_mod (fst (run_calls NewGasTracker (take k cs)))"
    by (rule run_calls_conserved_mod)
next
  have c: "conserved NewGasTracker"
    by (simp add: conserved_def allocations_sum_def NewGasTracker_def)
  show "used_total cs < 2 ^ 64 \<longrightarrow> conserved (fst (run_calls NewGasTracker (take k cs)))"
  proof
    assume "used_total cs < 2 ^ 64"
    with used_total_take [of k cs]
    have "unat (gasUsed NewGasTracker) + used_total (take k cs) < 2 ^ 64"
      by (simp add: NewGasTracker_def)
    with c show "conserved (fst (run_calls NewGasTracker (take k cs)))"
      by (rule run_calls_conserved)
  qed
qed

theorem ledger_conservation_witness:
  "used_total [Use 1 5, Use 1 5, Refund 1 3] < 2 ^ 64 \<and>
   conserved_mod (fst (run_calls NewGasTracker (take 3 [Use 1 5, Use 1 5, Refund 1 3]))) \<and>
   conserved (fst (run_calls NewGasTracker (take 3 [Use 1 5, Use 1 5, Refund 1 3]))) \<and>
   fst (run_calls NewGasTracker [Use 1 5, Use 1 5, Refund 1 3])
     = \<lparr>allocations = [(1, 7)], gasUsed = 7\<rparr>"
  using ledger_conservation [of 3 "[Use 1 5, Use 1 5, Refund 1 3]"]
  by (simp add: UseGas_fields RefundGas_cases NewGasTracker_def GetGasUsedByContract_def)

text \<open>
  The exact reading of C5 fails: two uses of \<open>2^63\<close> gas at two addresses never
  panic, and leave \<open>gasUsed = 0\<close> (wrapped) while the allocations sum to \<open>2^64\<close>.
\<close>

theorem ledger_conservation_counterexample:
  "snd (run_calls NewGasTracker [Use 1 (2 ^ 63), Use 2 (2 ^ 63)]) = Inr () \<and>
   unat (gasUsed (fst (run_calls NewGasTracker [Use 1 (2 ^ 63), Use 2 (2 ^ 63)]))) = 0 \<and>
   allocations_sum (fst (run_calls NewGasTracker [Use 1 (2 ^ 63), Use 2 (2 ^ 63)])) = 2 ^ 64 \<and>
   \<not> conserved (fst (run_calls NewGasTracker [Use 1 (2 ^ 63), Use 2 (2 ^ 63)]))"
  by (simp add: conserved_def allocations_sum_def UseGas_fields NewGasTracker_def
      GetGasUsedByContract_def)

text \<open>
  Claim C10. \<open>GetGasUsedByContract\<close> returns 0 for an address that no call on the
  ledger named, whatever the calls were and whether or not one of them panicked; on a
  fresh ledger it returns 0 for every address.
\<close>

theorem untouched_address_reads_zero:
  "(a \<notin> call_address ` set cs \<longrightarrow>
      GetGasUsedByContract (fst (run_calls NewGasTracker cs)) a = 0) \<and>
   GetGasUsedByContract NewGasTracker a = 0"
  by (simp add: run_calls_untouched) (simp add: GetGasUsedByContract_def NewGasTracker_def)

theorem untouched_address_reads_zero_witness:
  "(3 :: address) \<notin> call_address ` set [Use 1 5, Refund 1 2, Use 2 7] \<and>
   GetGasUsedByContract (fst (run_calls NewGasTracker [Use 1 5, Refund 1 2, Use 2 7])) 3 = 0 \<and>
   GetGasUsedByContract (fst (run_calls NewGasTracker [Use 1 5, Refund 1 2, Use 2 7])) 1 = 3"
  using untouched_address_reads_zero [of 3 "[Use 1 5, Refund 1 2, Use 2 7]"]
  by (simp add: UseGas_fields RefundGas_cases NewGasTracker_def GetGasUsedByContract_def)

section \<open>The distribution: frame properties\<close>

text \<open>
  Claim C6. When \<open>gasUsed = 0\<close> or \<open>gasUsed \<le> refund\<close>, \<open>AllocateDevGas\<close> returns
  without a panic and the storage it was given, balances and cells, is unchanged.
\<close>

theorem AllocateDevGas_noop:
  "gasUsed gtm = 0 \<or> gasUsed gtm \<le> refund \<Longrightarrow>
   AllocateDevGas ext gtm gasPrice refund st timestamp = (gtm, Inr st)"
  by (simp add: AllocateDevGas_def)

theorem AllocateDevGas_noop_witness:
  "AllocateDevGas \<lparr>Keccak256Hash = BytesToHash, PatexGasAddress = 1, PatexBaseFeeRecipient = 2\<rparr>
     \<lparr>allocations = [(3, 10)], gasUsed = 10\<rparr> 1 10 emptyStateDB 1
   = (\<lparr>allocations = [(3, 10)], gasUsed = 10\<rparr>, Inr emptyStateDB)"
  using AllocateDevGas_noop [of "\<lparr>allocations = [(3, 10)], gasUsed = 10\<rparr>" 10
     "\<lparr>Keccak256Hash = BytesToHash, PatexGasAddress = 1, PatexBaseFeeRecipient = 2\<rparr>"
     1 emptyStateDB 1]
  by simp

text \<open>
  Claim C9. \<open>AllocateDevGas\<close> leaves the ledger it reads as it was, \<open>gasUsed\<close> and
  every entry of \<open>allocations\<close>, whether it returns or panics.
\<close>

theorem AllocateDevGas_keeps_ledger:
  "fst (AllocateDevGas ext gtm gasPrice refund st timestamp) = gtm"
  by (simp add: AllocateDevGas_def Let_def split: sum.splits prod.splits)

section \<open>Lemmas: the accrual record store and the loop\<close>

lemma big_Div_pos: "0 < y \<Longrightarrow> big_Div x y = Quotient (x div y)"
  by (simp add: big_Div_def)

lemma length_Bytes: "length (Bytes h) = 32"
  using Rep_hash [of h] by (simp add: Bytes_def)

lemma Bytes_BytesToHash: "length bs = 32 \<Longrightarrow> Bytes (BytesToHash bs) = bs"
  by (simp add: Bytes_def BytesToHash_def Abs_hash_inverse)

lemma readGasParameters_eq:
  "readGasParameters ext st a =
     Inr \<lparr>mode = (Bytes (cells st (PatexGasAddress ext) (getContractStorageSlot ext a)) ! 0 \<noteq> 0),
          lastUpdated = SetBytes (take 4 (drop 28 (Bytes (cells st (PatexGasAddress ext) (getContractStorageSlot ext a))))),
          etherBalance = SetBytes (take 12 (drop 1 (Bytes (cells st (PatexGasAddress ext) (getContractStorageSlot ext a))))),
          etherSeconds = SetBytes (take 15 (drop 13 (Bytes (cells st (PatexGasAddress ext) (getContractStorageSlot ext a)))))\<rparr>"
  by (simp add: readGasParameters_def Let_def GetState_def unpack_total length_Bytes)

lemma readGasParameters_bounds:
  assumes "readGasParameters ext st a = Inr g"
  shows "0 \<le> lastUpdated g" "lastUpdated g < 2 ^ 32" "0 \<le> etherBalance g" "etherBalance g < 2 ^ 96"
    "0 \<le> etherSeconds g" "etherSeconds g < 2 ^ 120"
proof -
  let ?bs = "Bytes (cells st (PatexGasAddress ext) (getContractStorageSlot ext a))"
  have l: "length (take 4 (drop 28 ?bs)) = 4" "length (take 12 (drop 1 ?bs)) = 12"
    "length (take 15 (drop 13 ?bs)) = 15"
    by (simp_all add: length_Bytes)
  from assms have g: "lastUpdated g = SetBytes (take 4 (drop 28 ?bs))"
    "etherBalance g = SetBytes (take 12 (drop 1 ?bs))"
    "etherSeconds g = SetBytes (take 15 (drop 13 ?bs))"
    by (auto simp add: readGasParameters_eq)
  show "0 \<le> lastUpdated g" "0 \<le> etherBalance g" "0 \<le> etherSeconds g"
    by (simp_all add: g SetBytes_nonneg)
  show "lastUpdated g < 2 ^ 32"
    using SetBytes_bound [of "take 4 (drop 28 ?bs)"] by (simp only: g l) simp
  show "etherBalance g < 2 ^ 96"
    using SetBytes_bound [of "take 12 (drop 1 ?bs)"] by (simp only: g l) simp
  show "etherSeconds g < 2 ^ 120"
    using SetBytes_bound [of "take 15 (drop 13 ?bs)"] by (simp only: g l) simp
qed

lemma readGasParameters_total: "\<exists>g. readGasParameters ext st a = Inr g"
  by (simp add: readGasParameters_eq)

lemma updateGasParameters_panic:
  "updateGasParameters ext st a g = Inl p \<Longrightarrow> p = BufferTooSmall"
  by (auto simp add: updateGasParameters_def Let_def pack_eq split: if_splits sum.splits)

lemma updateGasPredeploy_panic:
  "updateGasPredeploy ext st a fee ts g = Inl p \<Longrightarrow> p = BufferTooSmall"
  by (auto simp add: updateGasPredeploy_def Let_def dest: updateGasParameters_panic)

lemma allocate_loop_panic:
  assumes "0 < netGas"
  shows "allocate_loop ext gasPrice remainingGas netGas ts xs tot acc st = Inl (p, s) \<Longrightarrow> p = BufferTooSmall"
proof (induction xs arbitrary: tot acc st)
  case Nil
  then show ?case by simp
next
  case (Cons x xs)
  obtain a v where x: "x = (a, v)" by (cases x)
  obtain g where g: "readGasParameters ext st a = Inr g"
    using readGasParameters_total by blast
  from Cons.prems show ?case
    unfolding x using assms g
    by (auto simp add: big_Div_pos Let_def split: sum.splits if_splits
        dest: updateGasPredeploy_panic Cons.IH)
qed

lemma allocate_loop_total:
  assumes "0 < netGas"
  shows "allocate_loop ext gasPrice remainingGas netGas ts xs tot acc st = Inr (tot', acc', st') \<Longrightarrow>
     tot' = tot + sum_list (map (\<lambda>(a, v). (remainingGas * uint v) div netGas) xs)"
proof (induction xs arbitrary: tot acc st)
  case Nil
  then show ?case by simp
next
  case (Cons x xs)
  obtain a v where x: "x = (a, v)" by (cases x)
  let ?s = "(remainingGas * uint v) div netGas"
  from Cons.prems obtain acc1 st1 where
    "allocate_loop ext gasPrice remainingGas netGas ts xs (tot + ?s) acc1 st1 = Inr (tot', acc', st')"
    unfolding x using assms
    by (auto simp add: big_Div_pos Let_def split: sum.splits if_splits)
  from Cons.IH [OF this] show ?case
    by (simp add: x)
qed

lemma shares_sum_le:
  fixes T r :: int
  assumes "0 < T" "0 \<le> r"
  shows "sum_list (map (\<lambda>(a, v). (r * uint v) div T) xs) * T \<le> r * sum_list (map (\<lambda>(a, v). uint v) (xs :: (address \<times> u64) list))"
proof (induction xs)
  case Nil
  then show ?case by simp
next
  case (Cons x xs)
  obtain a v where x: "x = (a, v)" by (cases x)
  have "(r * uint v) div T * T \<le> r * uint v"
    using div_mult_mod_eq [of "r * uint v" T] pos_mod_sign [OF assms(1), of "r * uint v"]
    by linarith
  with Cons.IH show ?case
    by (simp add: x algebra_simps)
qed

lemma uint_sum_allocations:
  "sum_list (map (\<lambda>(a, v). uint v) (xs :: (address \<times> u64) list)) = int (sum_list (map (\<lambda>(a, v). unat v) xs))"
  by (induction xs) auto

section \<open>The distribution: no inflation\<close>

text \<open>
  Claim C1. For a ledger whose allocations sum exactly to \<open>gasUsed\<close> and with
  \<open>gasUsed > refund\<close>, the shares \<open>floor((gasUsed - refund) * amount / gasUsed)\<close> of all
  entries sum to at most \<open>gasUsed - refund\<close>, and \<open>AllocateDevGas\<close> never panics with
  "gas accounting inflation".
\<close>

theorem no_gas_accounting_inflation:
  assumes "conserved gtm" and "refund < gasUsed gtm"
  shows "sum_list (map (\<lambda>(a, v). scaled_share (gasUsed gtm) refund v) (allocations gtm))
           \<le> uint (gasUsed gtm - refund) \<and>
         (\<forall>t r s. snd (AllocateDevGas ext gtm gasPrice refund st timestamp) \<noteq>
            Inl (GasAccountingInflation t r, s))"
proof -
  let ?T = "uint (gasUsed gtm)"
  let ?r = "uint (gasUsed gtm - refund)"
  let ?S = "sum_list (map (\<lambda>(a, v). (?r * uint v) div ?T) (allocations gtm))"
  from assms(2) have nz: "gasUsed gtm \<noteq> 0" and nle: "\<not> gasUsed gtm \<le> refund"
    by (auto simp add: word_less_nat_alt word_le_nat_alt)
  from nz have T: "0 < ?T"
    by (simp add: word_greater_zero_iff uint_0_iff order_less_le)
  have r: "0 \<le> ?r" by simp
  have "sum_list (map (\<lambda>(a, v). uint v) (allocations gtm)) = ?T"
    using assms(1) by (simp add: uint_sum_allocations conserved_def allocations_sum_def)
  with shares_sum_le [OF T r, of "allocations gtm"] have "?S * ?T \<le> ?r * ?T"
    by simp
  with T have S: "?S \<le> ?r"
    by simp
  have share: "sum_list (map (\<lambda>(a, v). scaled_share (gasUsed gtm) refund v) (allocations gtm)) = ?S"
    by (simp add: scaled_share_def)
  have "snd (AllocateDevGas ext gtm gasPrice refund st timestamp) \<noteq>
      Inl (GasAccountingInflation t q, s)" for t q s
  proof (cases "allocate_loop ext gasPrice ?r ?T (uint timestamp) (allocations gtm) 0 0 st")
    case (Inl ps)
    obtain p s' where ps: "ps = (p, s')" by (cases ps)
    have "p \<noteq> GasAccountingInflation t q"
      using allocate_loop_panic [OF T Inl [unfolded ps]] by simp
    with Inl ps nz nle show ?thesis
      by (simp add: AllocateDevGas_def Let_def)
  next
    case (Inr res)
    obtain tot acc st' where res: "res = (tot, acc, st')" by (cases res)
    from allocate_loop_total [OF T Inr [unfolded res]] have "tot = ?S" by simp
    with S Inr res nz nle show ?thesis
      by (simp add: AllocateDevGas_def Let_def)
  qed
  with S share show ?thesis by simp
qed


theorem no_gas_accounting_inflation_witness:
  "conserved \<lparr>allocations = [(1, 5), (2, 10), (3, 10)], gasUsed = 25\<rparr> \<and>
   (7 :: u64) < gasUsed \<lparr>allocations = [(1, 5), (2, 10), (3, 10)], gasUsed = 25\<rparr> \<and>
   sum_list (map (\<lambda>(a, v). scaled_share 25 7 v) [(1 :: address, 5), (2, 10), (3, 10)]) = 17 \<and>
   uint (25 - 7 :: u64) = 18 \<and>
   snd (AllocateDevGas \<lparr>Keccak256Hash = BytesToHash, PatexGasAddress = 1, PatexBaseFeeRecipient = 2\<rparr>
     \<lparr>allocations = [(1, 5), (2, 10), (3, 10)], gasUsed = 25\<rparr> 3 7 emptyStateDB 1) \<noteq>
     Inl (GasAccountingInflation 19 18, emptyStateDB)"
  using no_gas_accounting_inflation [of "\<lparr>allocations = [(1, 5), (2, 10), (3, 10)], gasUsed = 25\<rparr>" 7
     "\<lparr>Keccak256Hash = BytesToHash, PatexGasAddress = 1, PatexBaseFeeRecipient = 2\<rparr>" 3 emptyStateDB 1]
  by (simp add: conserved_def allocations_sum_def scaled_share_def)

section \<open>Lemmas: accrual and a single distribution\<close>

lemma pack_length: "pack g = Inr bs \<Longrightarrow> length bs = 32"
  by (auto simp add: pack_eq length_be_bytes split: if_splits)

lemma read_SetState:
  assumes "pack g = Inr bs"
  shows "readGasParameters ext (SetState st (PatexGasAddress ext) k (BytesToHash bs)) b =
     (if getContractStorageSlot ext b = k
      then Inr \<lparr>mode = mode g, lastUpdated = \<bar>lastUpdated g\<bar>,
                etherBalance = \<bar>etherBalance g\<bar>, etherSeconds = \<bar>etherSeconds g\<bar>\<rparr>
      else readGasParameters ext st b)"
  using unpack_pack_abs [OF assms] pack_length [OF assms]
  by (simp add: readGasParameters_def Let_def GetState_def SetState_def Bytes_BytesToHash)

lemma read_AddBalance:
  "readGasParameters ext (AddBalance st x amount) b = readGasParameters ext st b"
  by (simp add: readGasParameters_def Let_def GetState_def AddBalance_def)

lemma updateGasParameters_cases:
  "updateGasParameters ext st a g =
     (case pack g of
        Inl p \<Rightarrow> Inl p
      | Inr bs \<Rightarrow> Inr (SetState st (PatexGasAddress ext) (getContractStorageSlot ext a) (BytesToHash bs)))"
  by (simp add: updateGasParameters_def Let_def)

lemma updateGasPredeploy_struct:
  "updateGasPredeploy ext st a fee ts (g :: GasParameters) =
     updateGasParameters ext st a
       \<lparr>mode = mode g, lastUpdated = ts, etherBalance = etherBalance g + fee,
        etherSeconds = etherSeconds g + etherBalance g * (ts - lastUpdated g)\<rparr>"
  by (cases g) (simp add: updateGasPredeploy_def Let_def)

lemma updateGasPredeploy_read:
  assumes g: "0 \<le> lastUpdated g" "0 \<le> etherBalance g" "0 \<le> etherSeconds g"
    and ts: "lastUpdated g \<le> ts" and fee: "0 \<le> fee"
    and upd: "updateGasPredeploy ext st a fee ts g = Inr st'"
  shows "readGasParameters ext st' a =
           Inr \<lparr>mode = mode g, lastUpdated = ts, etherBalance = etherBalance g + fee,
                etherSeconds = etherSeconds g + etherBalance g * (ts - lastUpdated g)\<rparr>"
    and "balances st' = balances st"
proof -
  let ?g = "\<lparr>mode = mode g, lastUpdated = ts, etherBalance = etherBalance g + fee,
        etherSeconds = etherSeconds g + etherBalance g * (ts - lastUpdated g)\<rparr>"
  from upd obtain bs where bs: "pack ?g = Inr bs"
    and st': "st' = SetState st (PatexGasAddress ext) (getContractStorageSlot ext a) (BytesToHash bs)"
    by (auto simp add: updateGasPredeploy_struct updateGasParameters_cases split: sum.splits)
  have "0 \<le> etherBalance g * (ts - lastUpdated g)"
    using g(2) ts by simp
  with g ts fee show "readGasParameters ext st' a = Inr ?g"
    unfolding st' by (simp add: read_SetState [OF bs])
  show "balances st' = balances st"
    unfolding st' by (simp add: SetState_def)
qed

lemma updateGasPredeploy_fits:
  assumes "\<bar>ts\<bar> < 2 ^ 32" "\<bar>etherBalance g + fee\<bar> < 2 ^ 96"
    "\<bar>etherSeconds g + etherBalance g * (ts - lastUpdated g)\<bar> < 2 ^ 120"
  shows "\<exists>st'. updateGasPredeploy ext st a fee ts g = Inr st'"
  using assms by (simp add: updateGasPredeploy_struct updateGasParameters_cases pack_eq)

lemma SetBytes_zeros: "SetBytes (replicate n 0) = 0"
proof -
  have "foldl (\<lambda>acc b. acc * 256 + unat (b :: byte)) 0 (replicate n 0) = 0"
    by (induction n) simp_all
  then show ?thesis by (simp add: SetBytes_def)
qed

lemma read_emptyStateDB:
  "readGasParameters ext emptyStateDB a =
     Inr \<lparr>mode = False, lastUpdated = 0, etherBalance = 0, etherSeconds = 0\<rparr>"
proof -
  have z: "Bytes (BytesToHash []) = replicate 32 0"
    by (simp add: Bytes_def BytesToHash_def Abs_hash_inverse)
  show ?thesis
    by (simp add: readGasParameters_eq emptyStateDB_def z SetBytes_zeros)
qed

lemma setGasMode_empty:
  "\<exists>st0. setGasMode ext emptyStateDB a 1 = Inr st0 \<and>
     readGasParameters ext st0 a =
       Inr \<lparr>mode = True, lastUpdated = 0, etherBalance = 0, etherSeconds = 0\<rparr>"
proof -
  let ?g = "\<lparr>mode = True, lastUpdated = 0, etherBalance = 0, etherSeconds = 0\<rparr>"
  obtain bs where bs: "pack ?g = Inr bs"
    by (simp add: pack_eq)
  then have "setGasMode ext emptyStateDB a 1 =
      Inr (SetState emptyStateDB (PatexGasAddress ext) (getContractStorageSlot ext a) (BytesToHash bs))"
    by (simp add: setGasMode_def read_emptyStateDB updateGasParameters_cases)
  moreover have "readGasParameters ext
      (SetState emptyStateDB (PatexGasAddress ext) (getContractStorageSlot ext a) (BytesToHash bs)) a = Inr ?g"
    by (simp add: read_SetState [OF bs])
  ultimately show ?thesis by simp
qed

text \<open>One opted-in contract uses all the gas, no refund.\<close>

lemma AllocateDevGas_single:
  assumes rd: "readGasParameters ext st a = Inr g" and m: "mode g"
    and n: "n \<noteq> 0" and fee: "0 < uint n * gasPrice"
    and ts: "lastUpdated g \<le> uint t" "uint t < 2 ^ 32"
    and fits: "etherBalance g + uint n * gasPrice < 2 ^ 96"
      "etherSeconds g + etherBalance g * (uint t - lastUpdated g) < 2 ^ 120"
  shows "\<exists>st'. snd (AllocateDevGas ext (UseGas NewGasTracker a n) gasPrice 0 st t) = Inr st' \<and>
     readGasParameters ext st' a =
       Inr \<lparr>mode = True, lastUpdated = uint t, etherBalance = etherBalance g + uint n * gasPrice,
            etherSeconds = etherSeconds g + etherBalance g * (uint t - lastUpdated g)\<rparr>"
proof -
  note b = readGasParameters_bounds [OF rd]
  have g: "UseGas NewGasTracker a n = \<lparr>allocations = [(a, n)], gasUsed = n\<rparr>"
    by (simp add: UseGas_fields NewGasTracker_def GetGasUsedByContract_def)
  from n have pos: "0 < uint n"
    by (simp add: word_greater_zero_iff uint_0_iff order_less_le)
  then have share: "uint n * uint n div uint n = uint n"
    by simp
  have nle: "\<not> n \<le> 0" using n by (simp add: word_le_nat_alt unat_eq_0)
  have e: "0 \<le> etherBalance g * (uint t - lastUpdated g)"
    using b(3) ts(1) by simp
  have f0: "0 \<le> uint n * gasPrice" using fee by simp
  obtain st1 where st1: "updateGasPredeploy ext st a (uint n * gasPrice) (uint t) g = Inr st1"
    using updateGasPredeploy_fits [of "uint t" g "uint n * gasPrice" ext st a] ts fits b e f0
    by auto
  note r1 = updateGasPredeploy_read [OF b(1) b(3) b(5) ts(1) f0 st1]
  have "snd (AllocateDevGas ext (UseGas NewGasTracker a n) gasPrice 0 st t) =
      Inr (AddBalance (AddBalance st1 (PatexBaseFeeRecipient ext) ((uint n - uint n) * gasPrice))
             (PatexGasAddress ext) (uint n * gasPrice))"
    using n nle pos rd m fee st1
    by (simp add: g AllocateDevGas_def Let_def big_Div_pos share)
  with r1(1) m show ?thesis
    by (simp add: read_AddBalance)
qed

section \<open>Accrual\<close>

text \<open>
  Claim C8. \<open>updateGasPredeploy\<close> writes the record whose \<open>etherSeconds\<close> is the old
  one plus the old \<open>etherBalance\<close> times \<open>timestamp - lastUpdated\<close>, whose
  \<open>etherBalance\<close> is the old one plus the fee, and whose \<open>lastUpdated\<close> is the
  timestamp. When the record was read from the storage, the timestamp is not before
  its \<open>lastUpdated\<close>, the fee is not negative and the write does not panic, reading
  the contract's record back gives exactly that record. In Scenario C (a fresh
  storage, \<open>addr1\<close> opted in; gas price 2, 5 gas, timestamp 1; then gas price 3, 2
  gas, timestamp 2) the record of \<open>addr1\<close> is (balance 10, seconds 0, updated 1) after
  the first distribution and (balance 16, seconds 10, updated 2) after the second.
\<close>

theorem accrue_then_scenario_C:
  "updateGasPredeploy ext st a fee ts g =
     updateGasParameters ext st a
       \<lparr>mode = mode g, lastUpdated = ts, etherBalance = etherBalance g + fee,
        etherSeconds = etherSeconds g + etherBalance g * (ts - lastUpdated g)\<rparr> \<and>
   (readGasParameters ext st a = Inr g \<and> lastUpdated g \<le> ts \<and> 0 \<le> fee \<and>
    updateGasPredeploy ext st a fee ts g = Inr st' \<longrightarrow>
      readGasParameters ext st' a =
        Inr \<lparr>mode = mode g, lastUpdated = ts, etherBalance = etherBalance g + fee,
             etherSeconds = etherSeconds g + etherBalance g * (ts - lastUpdated g)\<rparr>) \<and>
   (\<exists>st0 st1 st2.
      setGasMode ext emptyStateDB addr1 1 = Inr st0 \<and>
      snd (AllocateDevGas ext (UseGas NewGasTracker addr1 5) 2 0 st0 1) = Inr st1 \<and>
      readGasParameters ext st1 addr1 =
        Inr \<lparr>mode = True, lastUpdated = 1, etherBalance = 10, etherSeconds = 0\<rparr> \<and>
      snd (AllocateDevGas ext (UseGas NewGasTracker addr1 2) 3 0 st1 2) = Inr st2 \<and>
      readGasParameters ext st2 addr1 =
        Inr \<lparr>mode = True, lastUpdated = 2, etherBalance = 16, etherSeconds = 10\<rparr>)"
proof (intro conjI impI)
  show "updateGasPredeploy ext st a fee ts g =
     updateGasParameters ext st a
       \<lparr>mode = mode g, lastUpdated = ts, etherBalance = etherBalance g + fee,
        etherSeconds = etherSeconds g + etherBalance g * (ts - lastUpdated g)\<rparr>"
    by (rule updateGasPredeploy_struct)
next
  assume h: "readGasParameters ext st a = Inr g \<and> lastUpdated g \<le> ts \<and> 0 \<le> fee \<and>
    updateGasPredeploy ext st a fee ts g = Inr st'"
  then have rd: "readGasParameters ext st a = Inr g" by simp
  note b = readGasParameters_bounds [OF rd]
  from h have ts: "lastUpdated g \<le> ts" and fee: "0 \<le> fee"
    and upd: "updateGasPredeploy ext st a fee ts g = Inr st'"
    by simp_all
  show "readGasParameters ext st' a =
        Inr \<lparr>mode = mode g, lastUpdated = ts, etherBalance = etherBalance g + fee,
             etherSeconds = etherSeconds g + etherBalance g * (ts - lastUpdated g)\<rparr>"
    by (rule updateGasPredeploy_read(1) [OF b(1) b(3) b(5) ts fee upd])
next
  let ?g0 = "\<lparr>mode = True, lastUpdated = 0, etherBalance = 0, etherSeconds = 0\<rparr>"
  let ?g1 = "\<lparr>mode = True, lastUpdated = 1, etherBalance = 10, etherSeconds = 0\<rparr>"
  let ?g2 = "\<lparr>mode = True, lastUpdated = 2, etherBalance = 16, etherSeconds = 10\<rparr>"
  obtain st0 where st0: "setGasMode ext emptyStateDB addr1 1 = Inr st0"
    and r0: "readGasParameters ext st0 addr1 = Inr ?g0"
    using setGasMode_empty by blast
  obtain st1 where st1: "snd (AllocateDevGas ext (UseGas NewGasTracker addr1 5) 2 0 st0 1) = Inr st1"
    and r1: "readGasParameters ext st1 addr1 = Inr ?g1"
    using AllocateDevGas_single [OF r0, of 5 2 1] by auto
  obtain st2 where st2: "snd (AllocateDevGas ext (UseGas NewGasTracker addr1 2) 3 0 st1 2) = Inr st2"
    and r2: "readGasParameters ext st2 addr1 = Inr ?g2"
    using AllocateDevGas_single [OF r1, of 2 3 2] by auto
  from st0 st1 r1 st2 r2 show "\<exists>st0 st1 st2.
      setGasMode ext emptyStateDB addr1 1 = Inr st0 \<and>
      snd (AllocateDevGas ext (UseGas NewGasTracker addr1 5) 2 0 st0 1) = Inr st1 \<and>
      readGasParameters ext st1 addr1 = Inr ?g1 \<and>
      snd (AllocateDevGas ext (UseGas NewGasTracker addr1 2) 3 0 st1 2) = Inr st2 \<and>
      readGasParameters ext st2 addr1 = Inr ?g2"
    by blast
qed

theorem accrue_then_scenario_C_witness:
  "readGasParameters \<lparr>Keccak256Hash = BytesToHash, PatexGasAddress = 1, PatexBaseFeeRecipient = 2\<rparr>
      emptyStateDB 3 = Inr \<lparr>mode = False, lastUpdated = 0, etherBalance = 0, etherSeconds = 0\<rparr> \<and>
   (\<exists>st'. updateGasPredeploy \<lparr>Keccak256Hash = BytesToHash, PatexGasAddress = 1, PatexBaseFeeRecipient = 2\<rparr>
             emptyStateDB 3 10 1 \<lparr>mode = False, lastUpdated = 0, etherBalance = 0, etherSeconds = 0\<rparr> = Inr st' \<and>
          readGasParameters \<lparr>Keccak256Hash = BytesToHash, PatexGasAddress = 1, PatexBaseFeeRecipient = 2\<rparr> st' 3 =
            Inr \<lparr>mode = False, lastUpdated = 1, etherBalance = 10, etherSeconds = 0\<rparr>)"
proof -
  let ?E = "\<lparr>Keccak256Hash = BytesToHash, PatexGasAddress = 1, PatexBaseFeeRecipient = 2\<rparr>"
  let ?g = "\<lparr>mode = False, lastUpdated = 0, etherBalance = 0, etherSeconds = 0\<rparr>"
  have r: "readGasParameters ?E emptyStateDB 3 = Inr ?g"
    by (rule read_emptyStateDB)
  obtain st' where u: "updateGasPredeploy ?E emptyStateDB 3 10 1 ?g = Inr st'"
    using updateGasPredeploy_fits [of 1 ?g 10 ?E emptyStateDB 3] by auto
  from accrue_then_scenario_C [of ?E emptyStateDB 3 10 1 ?g st'] r u
  have "readGasParameters ?E st' 3 = Inr \<lparr>mode = False, lastUpdated = 1, etherBalance = 10, etherSeconds = 0\<rparr>"
    by simp
  with r u show ?thesis by blast
qed

section \<open>Lemmas: the order of the loop\<close>



























section \<open>Lemmas: two opted-in contracts\<close>
















section \<open>The distribution: order independence\<close>




section \<open>Remark: wrap-around and the inflation check\<close>

text \<open>
  The hypothesis of C1 (the exact sum) is what C5 gives only below \<open>2^64\<close>. Past it,
  \<open>gasUsed\<close> wraps while the allocations do not: after \<open>UseGas\<close> of \<open>2^63\<close> and of
  \<open>2^63 + 1\<close> at two addresses \<open>gasUsed\<close> is 1, both shares exceed it, and the
  distribution panics with "gas accounting inflation".
\<close>

lemma inflation_after_wraparound:
  "snd (AllocateDevGas ext (fst (run_calls NewGasTracker [Use 1 (2 ^ 63), Use 2 (2 ^ 63 + 1)]))
          gasPrice 0 emptyStateDB timestamp)
     = Inl (GasAccountingInflation (2 ^ 64 + 1) 1, emptyStateDB)"
proof -
  have g: "fst (run_calls NewGasTracker [Use 1 (2 ^ 63), Use 2 (2 ^ 63 + 1)]) =
      \<lparr>allocations = [(1, 2 ^ 63), (2, 2 ^ 63 + 1)], gasUsed = 1\<rparr>"
    by (simp add: UseGas_fields NewGasTracker_def GetGasUsedByContract_def)
  show ?thesis
    unfolding g
    by (simp add: AllocateDevGas_def Let_def big_Div_pos read_emptyStateDB)
qed

end
